theory Spec2Isabelle
  imports Complex_Main "HOL-Library.Multiset"
begin

section \<open>Python values\<close>

text \<open>
  A Python \<open>str\<close> is a sequence of Unicode code points and \<open>len\<close> counts code points, so a
  string is a list of naturals here (an emoji is one element). \<open>str ''abc''\<close> writes an
  ASCII literal. Python's integers are unbounded: \<open>int\<close>. Durations and sizes of videos are
  numbers that the code only compares; they are reals here (the float NaN is left out).
\<close>

type_synonym pystr = "nat list"

abbreviation str :: "string \<Rightarrow> pystr" where
  "str s \<equiv> map of_char s"

definition py_prefix :: "int \<Rightarrow> 'a list \<Rightarrow> 'a list" where
  \<comment> \<open>the slice \<open>xs[:k]\<close>: a negative \<open>k\<close> counts from the end\<close>
  "py_prefix k xs =
     (if 0 \<le> k then take (nat k) xs else take (nat (int (length xs) + k)) xs)"

definition py_isspace :: "nat \<Rightarrow> bool" where
  \<comment> \<open>the code points that \<open>str.strip()\<close> and \<open>str.split()\<close> treat as whitespace\<close>
  "py_isspace c \<longleftrightarrow>
     (9 \<le> c \<and> c \<le> 13) \<or> (28 \<le> c \<and> c \<le> 32) \<or> c = 133 \<or> c = 160 \<or> c = 5760 \<or>
     (8192 \<le> c \<and> c \<le> 8202) \<or> c = 8232 \<or> c = 8233 \<or> c = 8239 \<or> c = 8287 \<or>
     c = 12288"

definition py_strip :: "pystr \<Rightarrow> pystr" where
  "py_strip s = rev (dropWhile py_isspace (rev (dropWhile py_isspace s)))"

definition py_startswith :: "pystr \<Rightarrow> pystr \<Rightarrow> bool" where
  "py_startswith s p \<longleftrightarrow> take (length p) s = p"

fun split_scan :: "nat \<Rightarrow> pystr \<Rightarrow> pystr \<Rightarrow> pystr list" where
  "split_scan sep w [] = [w]"
| "split_scan sep w (c # cs) =
     (if c = sep then w # split_scan sep [] cs else split_scan sep (w @ [c]) cs)"

definition py_split :: "nat \<Rightarrow> pystr \<Rightarrow> pystr list" where
  \<comment> \<open>\<open>s.split(sep)\<close> for a separator of one character\<close>
  "py_split sep s = split_scan sep [] s"

fun words_scan :: "pystr \<Rightarrow> pystr \<Rightarrow> pystr list" where
  "words_scan w [] = (if w = [] then [] else [w])"
| "words_scan w (c # cs) =
     (if py_isspace c then (if w = [] then words_scan [] cs else w # words_scan [] cs)
      else words_scan (w @ [c]) cs)"

definition py_words :: "pystr \<Rightarrow> pystr list" where
  \<comment> \<open>\<open>s.split()\<close>: the maximal runs of non-whitespace\<close>
  "py_words s = words_scan [] s"

fun py_join :: "pystr \<Rightarrow> pystr list \<Rightarrow> pystr" where
  "py_join sep [] = []"
| "py_join sep [x] = x"
| "py_join sep (x # y # ys) = x @ sep @ py_join sep (y # ys)"

definition digits3 :: "nat \<Rightarrow> pystr" where
  "digits3 n = [48 + n div 100 mod 10, 48 + n div 10 mod 10, 48 + n mod 10]"

definition digits_upto3 :: "nat \<Rightarrow> pystr" where
  "digits_upto3 n =
     (if n < 10 then [48 + n]
      else if n < 100 then [48 + n div 10, 48 + n mod 10]
      else digits3 n)"

function group_digits :: "nat \<Rightarrow> pystr" where
  "group_digits n =
     (if n < 1000 then digits_upto3 n
      else group_digits (n div 1000) @ 44 # digits3 (n mod 1000))"
  by pat_completeness auto
termination
  by (relation "measure id") auto

text \<open>
  Converting an integer to decimal text raises \<open>ValueError\<close> when the integer has more
  digits than the interpreter's limit (its default is 4300); the sign is not counted.
\<close>

datatype py_error = ValueError

definition int_max_str_digits :: nat where
  "int_max_str_digits = 4300"

definition format_commas :: "int \<Rightarrow> py_error + pystr" where
  \<comment> \<open>the format \<open>f"{n:,}"\<close> of an integer\<close>
  "format_commas n =
     (if 10 ^ int_max_str_digits \<le> \<bar>n\<bar> then Inl ValueError
      else Inr (if n < 0 then 45 # group_digits (nat (- n)) else group_digits (nat n)))"

section \<open>Text generation (utils/text\_generator.py)\<close>

text \<open>
  The two model APIs and the random module are outside the program. What they give to one
  call of \<open>generate_text\<close> is a value of the call: the reply of each API (\<open>Inl\<close> when the
  call raises, \<open>Inr\<close> the content of the first choice) and the index that
  \<open>random.choice\<close> draws.
\<close>

record text_generator =
  openai_available :: bool
  anthropic_available :: bool
  openai_reply :: "pystr + pystr"
  anthropic_reply :: "pystr + pystr"
  draw :: nat

definition within_limit :: "int \<Rightarrow> pystr \<Rightarrow> pystr" where
  \<comment> \<open>"Ensure text is within length limit"\<close>
  "within_limit max_length generated_text =
     (if int (length generated_text) > max_length
      then py_prefix (max_length - 3) generated_text @ str ''...''
      else generated_text)"

definition generate_with_openai :: "pystr + pystr \<Rightarrow> int \<Rightarrow> pystr + pystr" where
  "generate_with_openai reply max_length =
     (case reply of
        Inl e \<Rightarrow> Inl e
      | Inr content \<Rightarrow> Inr (within_limit max_length (py_strip content)))"

definition generate_with_anthropic :: "pystr + pystr \<Rightarrow> int \<Rightarrow> pystr + pystr" where
  "generate_with_anthropic reply max_length =
     (case reply of
        Inl e \<Rightarrow> Inl e
      | Inr content \<Rightarrow> Inr (within_limit max_length (py_strip content)))"

definition templates :: "pystr list" where
  "templates =
     [str ''Check out this amazing content! '' @ [128293],
      str ''Don't miss this incredible video! '' @ [10024],
      str ''This is absolutely mind-blowing! '' @ [129327],
      str ''You have to see this! '' @ [128064],
      str ''This content is pure gold! '' @ [11088]]"

fun add_hashtags :: "int \<Rightarrow> pystr \<Rightarrow> pystr list \<Rightarrow> pystr" where
  "add_hashtags max_length base_text [] = base_text"
| "add_hashtags max_length base_text (hashtag # rest) =
     (if int (length base_text) + int (length hashtag) + 1 \<le> max_length
      then add_hashtags max_length (base_text @ 32 # hashtag) rest
      else base_text)"

definition generate_fallback :: "nat \<Rightarrow> int \<Rightarrow> pystr" where
  "generate_fallback r max_length =
     add_hashtags max_length (templates ! (r mod length templates))
       [str ''#viral'', str ''#amazing'', str ''#content'', str ''#video'', str ''#social'']"

definition generate_text :: "text_generator \<Rightarrow> int \<Rightarrow> pystr \<Rightarrow> pystr" where
  "generate_text tg max_length model =
     (if model = str ''openai'' \<and> openai_available tg then
        (case generate_with_openai (openai_reply tg) max_length of
           Inr t \<Rightarrow> t
         | Inl e \<Rightarrow> generate_fallback (draw tg) max_length)
      else if model = str ''anthropic'' \<and> anthropic_available tg then
        (case generate_with_anthropic (anthropic_reply tg) max_length of
           Inr t \<Rightarrow> t
         | Inl e \<Rightarrow> generate_fallback (draw tg) max_length)
      else generate_fallback (draw tg) max_length)"

section \<open>Configuration (config.py)\<close>

record settings =
  max_twitter_length :: int
  max_linkedin_length :: int

definition default_settings :: settings where
  "default_settings = \<lparr>max_twitter_length = 280, max_linkedin_length = 3000\<rparr>"

record platform_config =
  max_length :: int
  hashtag_limit :: int
  video_max_duration :: real
  video_max_size :: real

definition PLATFORM_CONFIGS :: "settings \<Rightarrow> (pystr \<times> platform_config) list" where
  "PLATFORM_CONFIGS st =
     [(str ''twitter'',
        \<lparr>max_length = max_twitter_length st, hashtag_limit = 10,
         video_max_duration = 140, video_max_size = 512 * 1024 * 1024\<rparr>),
      (str ''linkedin'',
        \<lparr>max_length = max_linkedin_length st, hashtag_limit = 30,
         video_max_duration = 600, video_max_size = 5 * 1024 * 1024 * 1024\<rparr>)]"

section \<open>Content transformer (agents/content\_transformer\_agent.py)\<close>

text \<open>
  The dictionaries of the pipeline are records whose optional keys are \<open>option\<close> fields:
  reading a missing key with \<open>d['k']\<close> raises \<open>KeyError\<close>, which the enclosing
  \<open>try\<close> turns into the empty dictionary. The fields of the analysis that are only
  copied to the output (score, topics, sentiment) are left out.
\<close>

record video_info =
  duration :: "real option"
  file_size :: "real option"

record video_data =
  v_id :: "pystr option"
  v_caption :: "pystr option"
  v_hashtags :: "pystr list"
  v_video_path :: "pystr option"
  v_video_info :: "video_info option"
  v_thumbnail_url :: "pystr option"

datatype media =
    NoMedia
  | Video pystr real real "pystr option"
  | Image "pystr option" pystr

record content_data =
  c_text :: "pystr option"
  c_hashtags :: "pystr list"
  c_media :: media
  c_original_id :: "pystr option"
  c_platform :: "pystr option"

definition empty_content :: content_data where
  \<comment> \<open>the dictionary \<open>{}\<close>\<close>
  "empty_content =
     \<lparr>c_text = None, c_hashtags = [], c_media = NoMedia, c_original_id = None,
      c_platform = None\<rparr>"

text \<open>
  \<open>re.findall(r'#\w+', text)\<close> scans from the left: at a \<open>#\<close> followed by at least one
  word character it takes the longest run of word characters and goes on after it,
  otherwise it moves one character on. The class \<open>\w\<close> comes from the Unicode database
  of the interpreter; it is the parameter \<open>w\<close>. \<open>ascii_word\<close> is its ASCII part.
\<close>

function findall_hashtags :: "(nat \<Rightarrow> bool) \<Rightarrow> pystr \<Rightarrow> pystr list" where
  "findall_hashtags w [] = []"
| "findall_hashtags w (c # cs) =
     (if c = 35 \<and> takeWhile w cs \<noteq> []
      then (35 # takeWhile w cs) # findall_hashtags w (dropWhile w cs)
      else findall_hashtags w cs)"
  by pat_completeness auto
termination
  by (relation "measure (\<lambda>(w, s). length s)")
     (auto simp: length_dropWhile_le less_Suc_eq_le)

definition ascii_word :: "nat \<Rightarrow> bool" where
  "ascii_word c \<longleftrightarrow>
     (48 \<le> c \<and> c \<le> 57) \<or> (65 \<le> c \<and> c \<le> 90) \<or> c = 95 \<or> (97 \<le> c \<and> c \<le> 122)"

text \<open>
  \<open>list(set(xs))\<close> lists the distinct elements of \<open>xs\<close> in the iteration order of the
  set, which depends on the hashes of the strings (randomised per process). The order is
  the parameter \<open>list_set\<close>; \<open>set_order\<close> says what every such order satisfies.
\<close>

definition set_order :: "(pystr list \<Rightarrow> pystr list) \<Rightarrow> bool" where
  "set_order list_set \<longleftrightarrow>
     (\<forall>xs. distinct (list_set xs) \<and> set (list_set xs) = set xs)"

definition all_hashtags ::
  "(nat \<Rightarrow> bool) \<Rightarrow> (pystr list \<Rightarrow> pystr list) \<Rightarrow> pystr \<Rightarrow> pystr list \<Rightarrow> pystr list" where
  "all_hashtags w list_set text original_hashtags =
     list_set (findall_hashtags w text @
       map (\<lambda>tag. 35 # tag) (filter (\<lambda>tag. \<not> py_startswith tag [35]) original_hashtags))"

definition extract_hashtags ::
  "(nat \<Rightarrow> bool) \<Rightarrow> (pystr list \<Rightarrow> pystr list) \<Rightarrow> pystr \<Rightarrow> pystr list \<Rightarrow> int
     \<Rightarrow> pystr list" where
  "extract_hashtags w list_set text original_hashtags limit =
     py_prefix limit (all_hashtags w list_set text original_hashtags)"

definition prepare_media_for_platform :: "video_data \<Rightarrow> platform_config \<Rightarrow> media" where
  "prepare_media_for_platform vd platform_config =
     (let info = (case v_video_info vd of
                    None \<Rightarrow> \<lparr>duration = None, file_size = None\<rparr>
                  | Some i \<Rightarrow> i);
          d = (case duration info of None \<Rightarrow> 0 | Some x \<Rightarrow> x);
          fs = (case file_size info of None \<Rightarrow> 0 | Some x \<Rightarrow> x)
      in if d \<le> video_max_duration platform_config \<and> fs \<le> video_max_size platform_config
         then (case v_video_path vd of
                 None \<Rightarrow> NoMedia
               | Some path \<Rightarrow> Video path d fs (v_thumbnail_url vd))
         else Image (v_thumbnail_url vd)
                (str ''Video too large/long for platform, using thumbnail''))"

definition transform_for_platform ::
  "(pystr \<times> platform_config) list \<Rightarrow> (nat \<Rightarrow> bool) \<Rightarrow> (pystr list \<Rightarrow> pystr list)
     \<Rightarrow> text_generator \<Rightarrow> video_data \<Rightarrow> pystr \<Rightarrow> content_data" where
  "transform_for_platform configs w list_set tg vd platform =
     (case map_of configs platform of
        None \<Rightarrow> empty_content
      | Some platform_config \<Rightarrow>
          (case v_caption vd of
             None \<Rightarrow> empty_content
           | Some caption \<Rightarrow>
               (let generated_text =
                      generate_text tg (max_length platform_config) (str ''openai'');
                    hashtags =
                      extract_hashtags w list_set generated_text (v_hashtags vd)
                        (hashtag_limit platform_config);
                    media_info = prepare_media_for_platform vd platform_config
                in (case v_id vd of
                      None \<Rightarrow> empty_content
                    | Some i \<Rightarrow>
                        \<lparr>c_text = Some generated_text, c_hashtags = hashtags,
                         c_media = media_info, c_original_id = Some i,
                         c_platform = Some platform\<rparr>))))"






section \<open>Twitter agent (agents/twitter\_agent.py)\<close>

definition validate_content :: "content_data \<Rightarrow> bool" where
  "validate_content cd =
     (case c_text cd of
        None \<Rightarrow> False
      | Some t \<Rightarrow>
          if t = [] then False
          else if length t > 280 then False
          else (case c_media cd of
                  Video path d fs thumb \<Rightarrow> if d > 140 then False else True
                | _ \<Rightarrow> True))"

record tweet_data =
  t_text :: pystr
  t_hashtags :: "pystr list"
  t_media :: "(pystr \<times> pystr option) option"
  t_original_id :: "pystr option"

definition prepare_tweet_data :: "content_data \<Rightarrow> pystr + tweet_data" where
  "prepare_tweet_data cd =
     (case c_text cd of
        None \<Rightarrow> Inl (str ''text'')
      | Some t \<Rightarrow>
          Inr \<lparr>t_text = t, t_hashtags = c_hashtags cd,
               t_media =
                 (case c_media cd of
                    NoMedia \<Rightarrow> None
                  | Video path d fs thumb \<Rightarrow> Some (str ''video'', Some path)
                  | Image path note \<Rightarrow> Some (str ''image'', path)),
               t_original_id = c_original_id cd\<rparr>)"

text \<open>
  The publisher \<open>TwitterPoster.post_tweet\<close> is outside the program. It is a function of
  its own state and the tweet: it raises (\<open>Inl\<close>, with the message of the exception) or
  returns a reply dictionary, and leaves a new state. Waiting between posts has no effect
  on the results and is not modelled.
\<close>

record poster_reply =
  r_success :: bool
  r_tweet_id :: "pystr option"
  r_tweet_url :: "pystr option"
  r_error :: "pystr option"

datatype post_result =
    Posted "pystr option" "pystr option" "pystr option"
  | NotPosted "pystr option"

fun success :: "post_result \<Rightarrow> bool" where
  "success (Posted tweet_id tweet_url original_id) = True"
| "success (NotPosted e) = False"

definition post_content ::
  "('s \<Rightarrow> tweet_data \<Rightarrow> (pystr + poster_reply) \<times> 's) \<Rightarrow> 's \<Rightarrow> content_data
     \<Rightarrow> post_result \<times> 's" where
  "post_content post_tweet s cd =
     (if \<not> validate_content cd then (NotPosted (Some (str ''Content validation failed'')), s)
      else (case prepare_tweet_data cd of
              Inl e \<Rightarrow> (NotPosted (Some e), s)
            | Inr tweet \<Rightarrow>
                (case post_tweet s tweet of
                   (Inl e, s') \<Rightarrow> (NotPosted (Some e), s')
                 | (Inr result, s') \<Rightarrow>
                     if r_success result
                     then (Posted (r_tweet_id result) (r_tweet_url result)
                             (c_original_id cd), s')
                     else (NotPosted (r_error result), s'))))"

fun posting_loop ::
  "('s \<Rightarrow> tweet_data \<Rightarrow> (pystr + poster_reply) \<times> 's) \<Rightarrow> post_result list \<Rightarrow> 's
     \<Rightarrow> content_data list \<Rightarrow> post_result list \<times> 's" where
  "posting_loop post_tweet results s [] = (results, s)"
| "posting_loop post_tweet results s (cd # rest) =
     (case post_content post_tweet s cd of
        (result, s') \<Rightarrow> posting_loop post_tweet (results @ [result]) s' rest)"

definition execute_posting ::
  "('s \<Rightarrow> tweet_data \<Rightarrow> (pystr + poster_reply) \<times> 's) \<Rightarrow> 's \<Rightarrow> content_data list
     \<Rightarrow> post_result list \<times> 's" where
  "execute_posting post_tweet s content_list = posting_loop post_tweet [] s content_list"

section \<open>Orchestrator (agents/orchestrator\_agent.py)\<close>












section \<open>Rule-based transforms (complete\_pipeline.py, specific\_video\_poster.py)\<close>

text \<open>
  \<open>rule_based_text\<close> is the body of \<open>_rule_based_transform\<close> up to its last step,
  "Ensure Twitter length", which \<open>rule_based_transform\<close> adds. The number format is the
  one operation of the two functions that can raise.
\<close>

definition rule_based_text :: "pystr \<Rightarrow> int \<Rightarrow> pystr list \<Rightarrow> py_error + pystr" where
  "rule_based_text caption likes hashtags =
     (let sentences = py_split 46 caption;
          main_content = (case sentences of [] \<Rightarrow> caption | s # rest \<Rightarrow> s);
          ws = take 25 (py_words main_content);
          transformed = py_join [32] ws;
          boosted =
            (if likes > 1000
             then (case format_commas likes of
                     Inl e \<Rightarrow> Inl e
                   | Inr n \<Rightarrow> Inr (transformed @ [32, 128293] @ str '' ('' @ n @ str '' likes!)''))
             else if likes > 500 then Inr (transformed @ [32, 128640])
             else Inr transformed);
          relevant_hashtags =
            (if hashtags \<noteq> [] then take 2 hashtags else [str ''#AI'', str ''#Innovation''])
      in case boosted of
           Inl e \<Rightarrow> Inl e
         | Inr transformed \<Rightarrow> Inr (transformed @ [32] @ py_join [32] relevant_hashtags))"

definition rule_based_transform ::
  "pystr \<Rightarrow> int \<Rightarrow> int \<Rightarrow> pystr list \<Rightarrow> py_error + pystr" where
  "rule_based_transform caption likes comments hashtags =
     (case rule_based_text caption likes hashtags of
        Inl e \<Rightarrow> Inl e
      | Inr transformed \<Rightarrow>
          Inr (if length transformed > 280 then take 277 transformed @ str ''...''
               else transformed))"

definition optimize_for_twitter ::
  "pystr \<Rightarrow> int \<Rightarrow> int \<Rightarrow> pystr list \<Rightarrow> py_error + pystr" where
  "optimize_for_twitter caption likes comments hashtags =
     (let sentences = py_split 46 caption;
          main_content = (case sentences of [] \<Rightarrow> caption | s # rest \<Rightarrow> s);
          ws = take 35 (py_words main_content);
          content = py_join [32] ws
      in Inr (if length content > 250 then take 247 content @ str ''...'' else content))"

section \<open>The specification's words\<close>

text \<open>
  The specification speaks of cutting "at a whitespace boundary". A cut after the first
  \<open>k\<close> characters of \<open>t\<close> is at such a boundary when it is inside the text and the
  character before it or the character after it is whitespace.
\<close>

definition at_whitespace_boundary :: "pystr \<Rightarrow> nat \<Rightarrow> bool" where
  "at_whitespace_boundary t k \<longleftrightarrow>
     0 < k \<and> k < length t \<and> (py_isspace (t ! (k - 1)) \<or> py_isspace (t ! k))"

text \<open>
  Hashtag selection in the specification's words: the inline hashtags of the text, then
  the originals "normalized to have a leading \<open>#\<close>", duplicates removed with the
  first-seen order kept, cut to the limit.
\<close>

definition normalize_tag :: "pystr \<Rightarrow> pystr" where
  "normalize_tag tag = (if py_startswith tag [35] then tag else 35 # tag)"

definition first_seen :: "pystr list \<Rightarrow> pystr list" where
  "first_seen xs = rev (remdups (rev xs))"

definition hashtag_selection_spec ::
  "(nat \<Rightarrow> bool) \<Rightarrow> pystr \<Rightarrow> pystr list \<Rightarrow> int \<Rightarrow> pystr list" where
  "hashtag_selection_spec w text original limit =
     take (nat limit) (first_seen (findall_hashtags w text @ map normalize_tag original))"

text \<open>
  The candidates of the code: the inline hashtags and \<open>#tag\<close> for each original
  \<open>tag\<close> that does not start with \<open>#\<close>.
\<close>

definition combined :: "(nat \<Rightarrow> bool) \<Rightarrow> pystr \<Rightarrow> pystr list \<Rightarrow> pystr set" where
  "combined w text original =
     set (findall_hashtags w text) \<union>
     (\<lambda>tag. 35 # tag) ` {tag \<in> set original. \<not> py_startswith tag [35]}"

text \<open>The media kind \<open>video\<close> of the specification.\<close>

fun is_video :: "media \<Rightarrow> bool" where
  "is_video (Video path d fs thumb) = True"
| "is_video m = False"

section \<open>Example inputs\<close>

text \<open>
  A generator without API keys whose random draw is the fourth template, a post whose
  video lasts 141 seconds, and a payload whose video is one byte over Twitter's size limit.
\<close>

definition example_generator :: text_generator where
  "example_generator =
     \<lparr>openai_available = False, anthropic_available = False,
      openai_reply = Inl (str ''no key''), anthropic_reply = Inl (str ''no key''), draw = 3\<rparr>"

definition example_video :: video_data where
  "example_video =
     \<lparr>v_id = Some (str ''abc''), v_caption = Some (str ''Hello''), v_hashtags = [],
      v_video_path = Some (str ''v.mp4''),
      v_video_info = Some \<lparr>duration = Some 141, file_size = Some 1000\<rparr>,
      v_thumbnail_url = Some (str ''t.jpg'')\<rparr>"

definition oversized_payload :: content_data where
  "oversized_payload =
     \<lparr>c_text = Some (str ''hi''), c_hashtags = [],
      c_media = Video (str ''v.mp4'') 10 (512 * 1024 * 1024 + 1) None,
      c_original_id = Some (str ''abc''), c_platform = Some (str ''twitter'')\<rparr>"

text \<open>
  A payload that passes the gate, a successful reply of the publisher, and a publisher
  (its state counts the calls) whose second call raises.
\<close>

definition example_payload :: content_data where
  "example_payload =
     \<lparr>c_text = Some (str ''hi''), c_hashtags = [], c_media = NoMedia,
      c_original_id = Some (str ''abc''), c_platform = Some (str ''twitter'')\<rparr>"

definition example_reply :: poster_reply where
  "example_reply =
     \<lparr>r_success = True, r_tweet_id = Some (str ''1''), r_tweet_url = None, r_error = None\<rparr>"

definition flaky_poster :: "nat \<Rightarrow> tweet_data \<Rightarrow> (pystr + poster_reply) \<times> nat" where
  "flaky_poster calls tweet =
     (if calls = 1 then (Inl (str ''timeout''), Suc calls) else (Inr example_reply, Suc calls))"

text \<open>A publisher that refuses every tweet with a reply whose \<open>success\<close> is false.\<close>

definition refusing_reply :: poster_reply where
  "refusing_reply =
     \<lparr>r_success = False, r_tweet_id = None, r_tweet_url = None,
      r_error = Some (str ''Failed to create tweet'')\<rparr>"

definition refusing_poster :: "nat \<Rightarrow> tweet_data \<Rightarrow> (pystr + poster_reply) \<times> nat" where
  "refusing_poster calls tweet = (Inr refusing_reply, Suc calls)"






section \<open>Splitting and joining\<close>

lemma split_scan_Cons: "\<exists>s rest. split_scan sep w cs = s # rest"
  by (induction cs arbitrary: w) auto

lemma split_scan_hd: "hd (split_scan sep w cs) = w @ takeWhile (\<lambda>c. c \<noteq> sep) cs"
  by (induction cs arbitrary: w) auto

lemma first_sentence:
  "(case py_split 46 caption of [] \<Rightarrow> caption | s # rest \<Rightarrow> s) =
     takeWhile (\<lambda>c. c \<noteq> 46) caption"
proof -
  obtain s rest where e: "split_scan 46 [] caption = s # rest"
    using split_scan_Cons by blast
  with split_scan_hd [of 46 "[]" caption] show ?thesis by (simp add: py_split_def)
qed

lemma words_scan_nonempty: "x \<in> set (words_scan w cs) \<Longrightarrow> x \<noteq> []"
  by (induction cs arbitrary: w) (auto split: if_splits)

lemma words_scan_Nil:
  "words_scan w cs = [] \<longleftrightarrow> w = [] \<and> (\<forall>c\<in>set cs. py_isspace c)"
  by (induction cs arbitrary: w) auto

lemma words_scan_run:
  "\<forall>c\<in>set cs. \<not> py_isspace c \<Longrightarrow> w @ cs \<noteq> [] \<Longrightarrow> words_scan w cs = [w @ cs]"
  by (induction cs arbitrary: w) auto

lemma py_join_Nil:
  assumes "\<And>x. x \<in> set xs \<Longrightarrow> x \<noteq> []"
  shows "py_join sep xs = [] \<longleftrightarrow> xs = []"
proof (cases xs)
  case Nil
  then show ?thesis by simp
next
  case (Cons x ys)
  with assms show ?thesis by (cases ys) auto
qed

lemma joined_words_Nil:
  "py_join [32] (take (Suc n) (py_words s)) = [] \<longleftrightarrow> (\<forall>c\<in>set s. py_isspace c)"
proof -
  have "\<And>x. x \<in> set (take (Suc n) (py_words s)) \<Longrightarrow> x \<noteq> []"
    using words_scan_nonempty [of _ "[]" s] by (auto simp: py_words_def dest: in_set_takeD)
  then have "py_join [32] (take (Suc n) (py_words s)) = [] \<longleftrightarrow> take (Suc n) (py_words s) = []"
    by (rule py_join_Nil)
  also have "\<dots> \<longleftrightarrow> py_words s = []" by (cases "py_words s") auto
  also have "\<dots> \<longleftrightarrow> (\<forall>c\<in>set s. py_isspace c)"
    by (simp add: py_words_def words_scan_Nil)
  finally show ?thesis .
qed

lemma cut_nonempty:
  "(if n < length x then take k x @ str ''...'' else x) = [] \<longleftrightarrow> x = []"
  by auto

section \<open>Text shaping\<close>

lemma within_limit_cut:
  assumes "3 \<le> m" and "m < int (length t)"
  shows "within_limit m t = take (nat (m - 3)) t @ str ''...''"
  using assms by (simp add: within_limit_def py_prefix_def)

lemma length_hard_cut:
  assumes "3 \<le> m" and "m < int (length t)"
  shows "int (length (take (nat (m - 3)) t @ str ''...'')) = m"
  using assms by (simp add: min_def)

lemma within_limit_le:
  assumes "3 \<le> m"
  shows "int (length (within_limit m t)) \<le> m"
proof (cases "m < int (length t)")
  case True
  with assms show ?thesis
    using within_limit_cut [of m t] length_hard_cut [of m t] by simp
next
  case False
  then show ?thesis by (simp add: within_limit_def)
qed

lemma strip_300_a: "py_strip (replicate 300 97) = replicate 300 97"
  by (simp add: py_strip_def py_isspace_def)

lemma rule_based_cut:
  assumes "rule_based_text caption likes hashtags = Inr t" and "280 < length t"
  shows "rule_based_transform caption likes comments hashtags = Inr (take 277 t @ str ''...'')"
  using assms by (simp add: rule_based_transform_def)

lemma rule_based_uncut:
  assumes "rule_based_text caption likes hashtags = Inr t" and "length t \<le> 280"
  shows "rule_based_transform caption likes comments hashtags = Inr t"
  using assms by (simp add: rule_based_transform_def)

lemma words_300_a: "py_words (replicate 300 97) = [replicate 300 97]"
proof -
  have "\<forall>c\<in>set (replicate 300 (97::nat)). \<not> py_isspace c"
    by (simp add: py_isspace_def)
  moreover have "[] @ replicate 300 (97::nat) \<noteq> []" by simp
  ultimately have "words_scan [] (replicate 300 97) = [[] @ replicate 300 97]"
    by (rule words_scan_run)
  then show ?thesis by (simp add: py_words_def)
qed

lemma rule_based_text_300_a:
  "rule_based_text (replicate 300 97) 0 [] = Inr (replicate 300 97 @ str '' #AI #Innovation'')"
  unfolding rule_based_text_def Let_def first_sentence
  by (simp add: words_300_a)

text \<open>
  C2 (amended). When the limit is at least 3 and the stripped reply is longer than the
  limit, text shaping keeps exactly the first \<open>limit - 3\<close> characters, wherever that cut
  falls, and appends \<open>...\<close>; the result has exactly \<open>limit\<close> characters. Both model
  paths do the same. The rule-based transform cuts the same way at its constant 280: a
  text longer than 280 characters becomes its first 277 characters followed by
  \<open>...\<close>, 280 characters in all, and a text of at most 280 characters is returned as
  it is. For the limit 280 and 300 letters \<open>a\<close> the output is 277 letters followed by
  \<open>...\<close>: 280 characters.
\<close>

theorem text_shaping_hard_cut:
  assumes "3 \<le> m" and "m < int (length (py_strip raw))"
  shows "generate_with_openai (Inr raw) m =
           Inr (take (nat (m - 3)) (py_strip raw) @ str ''...'') \<and>
         generate_with_anthropic (Inr raw) m =
           Inr (take (nat (m - 3)) (py_strip raw) @ str ''...'') \<and>
         int (length (take (nat (m - 3)) (py_strip raw) @ str ''...'')) = m \<and>
         (\<forall>t. rule_based_text caption likes hashtags = Inr t \<and> 280 < length t \<longrightarrow>
            rule_based_transform caption likes comments hashtags =
              Inr (take 277 t @ str ''...'') \<and>
            length (take 277 t @ str ''...'') = 280) \<and>
         (\<forall>t. rule_based_text caption likes hashtags = Inr t \<and> length t \<le> 280 \<longrightarrow>
            rule_based_transform caption likes comments hashtags = Inr t)"
proof (intro conjI allI impI)
  show "generate_with_openai (Inr raw) m =
           Inr (take (nat (m - 3)) (py_strip raw) @ str ''...'')"
    using within_limit_cut [OF assms] by (simp add: generate_with_openai_def)
  show "generate_with_anthropic (Inr raw) m =
           Inr (take (nat (m - 3)) (py_strip raw) @ str ''...'')"
    using within_limit_cut [OF assms] by (simp add: generate_with_anthropic_def)
  show "int (length (take (nat (m - 3)) (py_strip raw) @ str ''...'')) = m"
    using assms by (rule length_hard_cut)
next
  fix t
  assume a: "rule_based_text caption likes hashtags = Inr t \<and> 280 < length t"
  then show "rule_based_transform caption likes comments hashtags =
      Inr (take 277 t @ str ''...'')"
    using rule_based_cut by blast
  from a show "length (take 277 t @ str ''...'') = 280" by simp
next
  fix t
  assume "rule_based_text caption likes hashtags = Inr t \<and> length t \<le> 280"
  then show "rule_based_transform caption likes comments hashtags = Inr t"
    using rule_based_uncut by blast
qed

theorem text_shaping_hard_cut_witness:
  "generate_with_openai (Inr (replicate 300 97)) 280 = Inr (replicate 277 97 @ str ''...'') \<and>
   length (replicate 277 (97::nat) @ str ''...'') = 280 \<and>
   rule_based_transform (replicate 300 97) 0 0 [] = Inr (replicate 277 97 @ str ''...'')"
proof -
  note h = text_shaping_hard_cut [of 280 "replicate 300 97" "replicate 300 97" 0 "[]" 0]
  have a: "(3::int) \<le> 280" and b: "280 < int (length (py_strip (replicate 300 97)))"
    by (simp_all add: strip_300_a)
  have c: "rule_based_text (replicate 300 97) 0 [] =
      Inr (replicate 300 97 @ str '' #AI #Innovation'') \<and>
      280 < length (replicate 300 (97::nat) @ str '' #AI #Innovation'')"
    by (simp add: rule_based_text_300_a)
  from h [OF a b] have
    "generate_with_openai (Inr (replicate 300 97)) 280 =
       Inr (take (nat (280 - 3)) (py_strip (replicate 300 97)) @ str ''...'')"
    and "\<forall>t. rule_based_text (replicate 300 97) 0 [] = Inr t \<and> 280 < length t \<longrightarrow>
            rule_based_transform (replicate 300 97) 0 0 [] = Inr (take 277 t @ str ''...'') \<and>
            length (take 277 t @ str ''...'') = 280"
    by blast+
  with c show ?thesis by (simp add: strip_300_a)
qed

text \<open>
  The claim as stated fails twice. With the limit 10 the reply \<open>hello world foo\<close> is cut
  after 7 characters, inside the word \<open>world\<close>, although a whitespace boundary was
  available after 5 characters. With the limit 2 the reply \<open>abcdef\<close> becomes
  \<open>abcde...\<close>, which is longer than the limit.
\<close>

theorem text_shaping_counterexample:
  "within_limit 10 (str ''hello world foo'') = str ''hello w'' @ str ''...'' \<and>
   at_whitespace_boundary (str ''hello world foo'') 5 \<and>
   \<not> at_whitespace_boundary (str ''hello world foo'') 7 \<and>
   within_limit 2 (str ''abcdef'') = str ''abcde...'' \<and>
   2 < length (str ''abcde...'')"
  by (simp add: within_limit_def py_prefix_def at_whitespace_boundary_def py_isspace_def)

section \<open>Hashtag selection\<close>

lemma py_prefix_distinct: "distinct xs \<Longrightarrow> distinct (py_prefix k xs)"
  by (simp add: py_prefix_def)

lemma py_prefix_subset: "set (py_prefix k xs) \<subseteq> set xs"
  by (auto simp: py_prefix_def dest: in_set_takeD)

lemma py_prefix_length: "0 \<le> k \<Longrightarrow> int (length (py_prefix k xs)) \<le> k"
  by (simp add: py_prefix_def)

lemma py_prefix_all: "int (length xs) \<le> k \<Longrightarrow> py_prefix k xs = xs"
  by (simp add: py_prefix_def)

lemma py_prefix_length_eq: "length xs = length ys \<Longrightarrow> length (py_prefix k xs) = length (py_prefix k ys)"
  by (simp add: py_prefix_def)

lemma all_hashtags_distinct: "set_order list_set \<Longrightarrow> distinct (all_hashtags w list_set text original)"
  by (simp add: set_order_def all_hashtags_def)

lemma all_hashtags_set:
  "set_order list_set \<Longrightarrow> set (all_hashtags w list_set text original) = combined w text original"
  by (auto simp: set_order_def all_hashtags_def combined_def)

lemma all_hashtags_length:
  "set_order list_set \<Longrightarrow> length (all_hashtags w list_set t original) = card (combined w t original)"
  using all_hashtags_distinct [of list_set w t original] all_hashtags_set [of list_set w t original]
  by (metis distinct_card)

lemma distinct_singleton:
  assumes "distinct xs" and "set xs = {a}"
  shows "xs = [a]"
proof (cases xs)
  case Nil
  with assms show ?thesis by simp
next
  case (Cons x ys)
  with assms have x: "x = a" by auto
  have "ys = []"
  proof (cases ys)
    case Nil
    then show ?thesis .
  next
    case (Cons y zs)
    with \<open>xs = x # ys\<close> assms have "y = a" and "y \<noteq> x" by auto
    with x show ?thesis by simp
  qed
  with Cons x show ?thesis by simp
qed

lemma combined_AI: "combined ascii_word (str ''#AI #AI'') [str ''AI''] = {str ''#AI''}"
  by (auto simp: combined_def ascii_word_def py_startswith_def)

lemma all_hashtags_AI:
  assumes "set_order list_set"
  shows "all_hashtags ascii_word list_set (str ''#AI #AI'') [str ''AI''] = [str ''#AI'']"
  using all_hashtags_distinct [OF assms, of ascii_word "str ''#AI #AI''" "[str ''AI'']"]
    all_hashtags_set [OF assms, of ascii_word "str ''#AI #AI''" "[str ''AI'']"]
  unfolding combined_AI by (rule distinct_singleton)

lemma set_order_remdups: "set_order remdups"
  by (simp add: set_order_def)

lemma set_order_first_seen: "set_order first_seen"
  by (simp add: set_order_def first_seen_def)

lemma extract_eval:
  "extract_hashtags w list_set t original 10 =
     take 10 (list_set (findall_hashtags w t @
       map (\<lambda>tag. 35 # tag) (filter (\<lambda>tag. \<not> py_startswith tag [35]) original)))"
  by (simp add: extract_hashtags_def all_hashtags_def py_prefix_def)

lemma py_prefix_take: "0 \<le> k \<Longrightarrow> py_prefix k xs = take (nat k) xs"
  by (simp add: py_prefix_def)

text \<open>
  C3 (amended). For every iteration order of the set, the candidates of hashtag selection
  are the inline hashtags of the text and \<open>#tag\<close> for each original \<open>tag\<close> that lacks
  the leading \<open>#\<close>; originals that already start with \<open>#\<close> contribute nothing. The
  candidates are listed without duplicates (compared case-sensitively) in the order of
  the set, not the order of discovery, and for a limit of at least 0 the output is the
  first \<open>limit\<close> entries of that list: it has exactly as many entries as the smaller of
  the limit and the number of candidates, and holds every candidate when the limit is at
  least their number. For the input \<open>#AI #AI\<close>, the originals \<open>["AI"]\<close> and a limit of
  at least 1 the output is exactly \<open>["#AI"]\<close>.
\<close>

theorem hashtag_selection_set_semantics:
  assumes "set_order list_set"
  shows "distinct (all_hashtags w list_set t original) \<and>
         set (all_hashtags w list_set t original) = combined w t original \<and>
         (0 \<le> limit \<longrightarrow>
            extract_hashtags w list_set t original limit =
              take (nat limit) (all_hashtags w list_set t original)) \<and>
         (0 \<le> limit \<longrightarrow>
            length (extract_hashtags w list_set t original limit) =
              min (nat limit) (card (combined w t original))) \<and>
         distinct (extract_hashtags w list_set t original limit) \<and>
         set (extract_hashtags w list_set t original limit) \<subseteq> combined w t original \<and>
         (0 \<le> limit \<longrightarrow> int (length (extract_hashtags w list_set t original limit)) \<le> limit) \<and>
         (int (card (combined w t original)) \<le> limit \<longrightarrow>
            set (extract_hashtags w list_set t original limit) = combined w t original) \<and>
         (1 \<le> limit \<longrightarrow>
            extract_hashtags ascii_word list_set (str ''#AI #AI'') [str ''AI''] limit = [str ''#AI''])"
proof -
  let ?all = "all_hashtags w list_set t original"
  have d0: "distinct ?all" by (rule all_hashtags_distinct [OF assms])
  have s0: "set ?all = combined w t original" by (rule all_hashtags_set [OF assms])
  have n0: "length ?all = card (combined w t original)" by (rule all_hashtags_length [OF assms])
  have t: "0 \<le> limit \<longrightarrow> py_prefix limit ?all = take (nat limit) ?all"
    by (simp add: py_prefix_take)
  have n: "0 \<le> limit \<longrightarrow>
      length (py_prefix limit ?all) = min (nat limit) (card (combined w t original))"
    using n0 by (simp add: py_prefix_take min.commute)
  have d: "distinct (py_prefix limit ?all)"
    using d0 by (rule py_prefix_distinct)
  have s: "set (py_prefix limit ?all) \<subseteq> combined w t original"
    using py_prefix_subset [of limit ?all] s0 by simp
  have l: "0 \<le> limit \<longrightarrow> int (length (py_prefix limit ?all)) \<le> limit"
    by (simp add: py_prefix_length)
  have e: "int (card (combined w t original)) \<le> limit \<longrightarrow>
      set (py_prefix limit ?all) = combined w t original"
    using n0 s0 by (simp add: py_prefix_all)
  have a: "1 \<le> limit \<longrightarrow>
      py_prefix limit (all_hashtags ascii_word list_set (str ''#AI #AI'') [str ''AI'']) = [str ''#AI'']"
    unfolding all_hashtags_AI [OF assms] by (simp add: py_prefix_all)
  from d0 s0 t n d s l e a show ?thesis unfolding extract_hashtags_def by blast
qed

theorem hashtag_selection_set_semantics_witness:
  "set_order first_seen \<and>
   extract_hashtags ascii_word first_seen (str ''#AI #AI'') [str ''AI''] 10 = [str ''#AI''] \<and>
   distinct (extract_hashtags ascii_word first_seen (str ''#AI #AI'') [str ''AI''] 10) \<and>
   extract_hashtags ascii_word first_seen (str ''#a #b #c'') [] 2 = [str ''#a'', str ''#b'']"
proof -
  note h = hashtag_selection_set_semantics [OF set_order_first_seen,
      of ascii_word "str ''#AI #AI''" "[str ''AI'']" 10]
  have "(1::int) \<le> 10" by simp
  with h have 1: "extract_hashtags ascii_word first_seen (str ''#AI #AI'') [str ''AI''] 10 =
      [str ''#AI''] \<and>
      distinct (extract_hashtags ascii_word first_seen (str ''#AI #AI'') [str ''AI''] 10)"
    by blast
  note k = hashtag_selection_set_semantics [OF set_order_first_seen,
      of ascii_word "str ''#a #b #c''" "[]" 2]
  have "(0::int) \<le> 2" by simp
  with k have "extract_hashtags ascii_word first_seen (str ''#a #b #c'') [] 2 =
      take (nat 2) (all_hashtags ascii_word first_seen (str ''#a #b #c'') [])"
    by blast
  also have "\<dots> = [str ''#a'', str ''#b'']"
    by (simp add: all_hashtags_def first_seen_def ascii_word_def)
  finally show ?thesis using 1 set_order_first_seen by simp
qed

text \<open>
  The claim as stated fails. With no inline hashtag and the originals \<open>["#AI"]\<close> the code
  returns the empty list where the specification's selection returns \<open>["#AI"]\<close>. And the
  order is not the order of discovery: \<open>remdups\<close> is an iteration order a set may have,
  and under it the input \<open>#a #b #a\<close> gives \<open>["#b", "#a"]\<close>.
\<close>

theorem hashtag_selection_counterexample:
  "extract_hashtags ascii_word first_seen [] [str ''#AI''] 10 = [] \<and>
   hashtag_selection_spec ascii_word [] [str ''#AI''] 10 = [str ''#AI''] \<and>
   set_order remdups \<and>
   extract_hashtags ascii_word remdups (str ''#a #b #a'') [] 10 = [str ''#b'', str ''#a''] \<and>
   hashtag_selection_spec ascii_word (str ''#a #b #a'') [] 10 = [str ''#a'', str ''#b'']"
  by (simp add: extract_eval hashtag_selection_spec_def first_seen_def
      normalize_tag_def py_startswith_def ascii_word_def set_order_remdups)

text \<open>
  C10 (amended). For every iteration order of the set, the combined hashtag list holds
  exactly the inline hashtags and \<open>#tag\<close> for the originals \<open>tag\<close> that lack the
  leading \<open>#\<close>: an original that begins with \<open>#\<close> adds nothing. Such an original
  appears in the output only if it occurs as an inline hashtag of the text, or the same
  tag without its \<open>#\<close> is also among the originals.
\<close>

theorem prefixed_originals_excluded:
  assumes "set_order list_set"
  shows "set (all_hashtags w list_set t original) =
           set (findall_hashtags w t) \<union>
           (\<lambda>tag. 35 # tag) ` {tag \<in> set original. \<not> py_startswith tag [35]} \<and>
         (\<forall>h. h \<in> set original \<and> py_startswith h [35] \<and>
               h \<in> set (extract_hashtags w list_set t original limit) \<longrightarrow>
               h \<in> set (findall_hashtags w t) \<or>
               (tl h \<in> set original \<and> \<not> py_startswith (tl h) [35]))"
proof (intro conjI allI impI)
  show "set (all_hashtags w list_set t original) =
           set (findall_hashtags w t) \<union>
           (\<lambda>tag. 35 # tag) ` {tag \<in> set original. \<not> py_startswith tag [35]}"
    using all_hashtags_set [OF assms, of w t original] by (simp only: combined_def)
next
  fix h
  assume a: "h \<in> set original \<and> py_startswith h [35] \<and>
               h \<in> set (extract_hashtags w list_set t original limit)"
  have "set (extract_hashtags w list_set t original limit) \<subseteq> combined w t original"
    unfolding extract_hashtags_def
    using py_prefix_subset [of limit "all_hashtags w list_set t original"]
      all_hashtags_set [OF assms, of w t original] by simp
  with a have "h \<in> combined w t original" by blast
  then consider "h \<in> set (findall_hashtags w t)"
    | tag where "h = 35 # tag" and "tag \<in> set original" and "\<not> py_startswith tag [35]"
    unfolding combined_def by blast
  then show "h \<in> set (findall_hashtags w t) \<or>
               (tl h \<in> set original \<and> \<not> py_startswith (tl h) [35])"
  proof cases
    case 1
    then show ?thesis by simp
  next
    case 2
    then show ?thesis by simp
  qed
qed

theorem prefixed_originals_excluded_witness:
  "set_order first_seen \<and>
   findall_hashtags ascii_word (str ''go #x'') = [str ''#x''] \<and>
   str ''#y'' \<notin> set (extract_hashtags ascii_word first_seen (str ''go #x'') [str ''#y'', str ''z''] 10)"
proof -
  have f: "findall_hashtags ascii_word (str ''go #x'') = [str ''#x'']"
    by (simp add: ascii_word_def)
  have p: "py_startswith (str ''#y'') [35]"
    by (simp add: py_startswith_def)
  have m: "str ''#y'' \<in> set [str ''#y'', str ''z'']" by simp
  have n: "str ''#y'' \<notin> set [str ''#x'']" by simp
  have t: "tl (str ''#y'') \<notin> set [str ''#y'', str ''z'']" by simp
  note h = prefixed_originals_excluded [OF set_order_first_seen,
        of ascii_word "str ''go #x''" "[str ''#y'', str ''z'']" 10, THEN conjunct2, rule_format,
        of "str ''#y''"]
  from h p m n t show ?thesis unfolding f using set_order_first_seen f by blast
qed

text \<open>
  The claim as stated fails when an original occurs both with and without its \<open>#\<close>: for
  the originals \<open>["#AI", "AI"]\<close> and an empty text the output holds \<open>#AI\<close>, an original
  that begins with \<open>#\<close>, although the text has no inline hashtag.
\<close>

theorem prefixed_originals_counterexample:
  "extract_hashtags ascii_word first_seen [] [str ''#AI'', str ''AI''] 10 = [str ''#AI''] \<and>
   str ''#AI'' \<in> set [str ''#AI'', str ''AI''] \<and>
   py_startswith (str ''#AI'') [35] \<and>
   findall_hashtags ascii_word [] = []"
  by (simp add: extract_eval first_seen_def py_startswith_def)

section \<open>Media selection\<close>

lemma prepare_media_over:
  assumes "v_video_info vd = Some info" and "duration info = Some d" and "file_size info = Some fs"
    and "video_max_duration cfg < d \<or> video_max_size cfg < fs"
  shows "prepare_media_for_platform vd cfg =
           Image (v_thumbnail_url vd) (str ''Video too large/long for platform, using thumbnail'')"
  using assms by (auto simp: prepare_media_for_platform_def Let_def)

lemma prepare_media_video_within:
  assumes "prepare_media_for_platform vd cfg = Video path d fs thumb"
  shows "d \<le> video_max_duration cfg \<and> fs \<le> video_max_size cfg"
  using assms
  by (auto simp: prepare_media_for_platform_def Let_def split: if_splits option.splits)

lemma transform_media:
  "c_media (transform_for_platform configs w list_set tg vd platform) = NoMedia \<or>
   (\<exists>cfg. map_of configs platform = Some cfg \<and>
      c_media (transform_for_platform configs w list_set tg vd platform) =
        prepare_media_for_platform vd cfg)"
  by (simp add: transform_for_platform_def empty_content_def Let_def split: option.splits)

lemma twitter_config:
  "map_of (PLATFORM_CONFIGS st) (str ''twitter'') =
     Some \<lparr>max_length = max_twitter_length st, hashtag_limit = 10,
         video_max_duration = 140, video_max_size = 512 * 1024 * 1024\<rparr>"
  by (simp add: PLATFORM_CONFIGS_def)

text \<open>
  C4. When the video of a post lasts longer than the profile's maximal duration or is
  larger than its maximal size, media preparation returns an image reference (the
  thumbnail) with the note that the video is too large or long, and the media of the
  transformed post is not a video: it is that image, or absent when the transformation
  failed. Whenever media preparation does return a video, its duration and size are
  within the profile's limits.
\<close>

theorem oversized_video_degraded:
  assumes "v_video_info vd = Some info" and "duration info = Some d" and "file_size info = Some fs"
    and "video_max_duration cfg < d \<or> video_max_size cfg < fs"
    and "map_of configs platform = Some cfg"
  shows "prepare_media_for_platform vd cfg =
           Image (v_thumbnail_url vd) (str ''Video too large/long for platform, using thumbnail'') \<and>
         \<not> is_video (c_media (transform_for_platform configs w list_set tg vd platform)) \<and>
         (\<forall>vd' path d' fs' thumb. prepare_media_for_platform vd' cfg = Video path d' fs' thumb \<longrightarrow>
            d' \<le> video_max_duration cfg \<and> fs' \<le> video_max_size cfg)"
proof (intro conjI allI impI)
  show i: "prepare_media_for_platform vd cfg =
           Image (v_thumbnail_url vd) (str ''Video too large/long for platform, using thumbnail'')"
    using assms(1-4) by (rule prepare_media_over)
  show "\<not> is_video (c_media (transform_for_platform configs w list_set tg vd platform))"
    using transform_media [of configs w list_set tg vd platform] i assms(5) by auto
next
  fix vd' path d' fs' thumb
  assume "prepare_media_for_platform vd' cfg = Video path d' fs' thumb"
  then show "d' \<le> video_max_duration cfg" and "fs' \<le> video_max_size cfg"
    using prepare_media_video_within by blast+
qed

text \<open>A video of 141 seconds, one second over Twitter's 140.\<close>

theorem oversized_video_degraded_witness:
  "prepare_media_for_platform example_video
     \<lparr>max_length = 280, hashtag_limit = 10, video_max_duration = 140,
      video_max_size = 512 * 1024 * 1024\<rparr> =
     Image (Some (str ''t.jpg'')) (str ''Video too large/long for platform, using thumbnail'') \<and>
   \<not> is_video (c_media (transform_for_platform (PLATFORM_CONFIGS default_settings) ascii_word
       first_seen example_generator example_video (str ''twitter'')))"
proof -
  have a: "v_video_info example_video = Some \<lparr>duration = Some 141, file_size = Some 1000\<rparr>"
    by (simp add: example_video_def)
  have b: "max_twitter_length default_settings = 280" by (simp add: default_settings_def)
  have c: "v_thumbnail_url example_video = Some (str ''t.jpg'')" by (simp add: example_video_def)
  note h = oversized_video_degraded [OF a, of 141 1000 _ "PLATFORM_CONFIGS default_settings"
      "str ''twitter''" ascii_word first_seen example_generator, OF _ _ _ twitter_config]
  show ?thesis using h unfolding b c by simp
qed

section \<open>The validation gate\<close>

text \<open>
  C5 (amended). Twitter's gate rejects a payload if and only if its text is missing or
  empty, or longer than 280 characters, or its media is a video that lasts more than 140
  seconds. The size of the video is not looked at: two payloads that differ only in the
  size of their video get the same verdict.
\<close>

theorem validation_gate_rejects_iff:
  "((\<not> validate_content cd) \<longleftrightarrow>
     (c_text cd = None \<or> c_text cd = Some [] \<or>
      (\<exists>t. c_text cd = Some t \<and> 280 < length t) \<or>
      (\<exists>path d fs thumb. c_media cd = Video path d fs thumb \<and> 140 < d))) \<and>
   validate_content (cd\<lparr>c_media := Video path' d' fs' thumb'\<rparr>) =
     validate_content (cd\<lparr>c_media := Video path' d' fs'' thumb'\<rparr>)"
  by (auto simp: validate_content_def split: option.splits media.splits)

text \<open>
  The claim as stated fails: a payload whose video is one byte over the size limit of the
  Twitter profile (512 MB) and lasts 10 seconds passes the gate.
\<close>

theorem validation_gate_counterexample:
  "validate_content oversized_payload \<and>
   c_media oversized_payload = Video (str ''v.mp4'') 10 (512 * 1024 * 1024 + 1) None \<and>
   map_of (PLATFORM_CONFIGS default_settings) (str ''twitter'') =
     Some \<lparr>max_length = 280, hashtag_limit = 10, video_max_duration = 140,
           video_max_size = 512 * 1024 * 1024\<rparr> \<and>
   (512 * 1024 * 1024 :: real) < 512 * 1024 * 1024 + 1"
  by (simp add: validate_content_def oversized_payload_def PLATFORM_CONFIGS_def
      default_settings_def)

section \<open>Bounds of the transformed post\<close>

lemma add_hashtags_le:
  "int (length (add_hashtags m base hs)) \<le> max m (int (length base))"
proof (induction hs arbitrary: base)
  case Nil
  then show ?case by simp
next
  case (Cons h hs)
  show ?case
  proof (cases "int (length base) + int (length h) + 1 \<le> m")
    case True
    with Cons [of "base @ 32 # h"] show ?thesis by simp
  next
    case False
    then show ?thesis by simp
  qed
qed

lemma templates_le: "length (templates ! (r mod length templates)) \<le> 35"
proof -
  have "r mod length templates < 5" by (simp add: templates_def)
  then have "r mod length templates \<in> {0, 1, 2, 3, 4}" by auto
  then show ?thesis by (auto simp: templates_def)
qed

lemma generate_fallback_le:
  assumes "35 \<le> m"
  shows "int (length (generate_fallback r m)) \<le> m"
proof -
  have "int (length (generate_fallback r m)) \<le> max m (int (length (templates ! (r mod length templates))))"
    unfolding generate_fallback_def by (rule add_hashtags_le)
  with templates_le [of r] assms show ?thesis by simp
qed

lemma generate_text_le:
  assumes "35 \<le> m"
  shows "int (length (generate_text tg m model)) \<le> m"
proof -
  have "3 \<le> m" using assms by simp
  then have w: "\<And>t. int (length (within_limit m t)) \<le> m" by (rule within_limit_le)
  show ?thesis
    using w generate_fallback_le [OF assms]
    by (simp add: generate_text_def generate_with_openai_def generate_with_anthropic_def
        split: sum.splits)
qed

lemma example_transform:
  "transform_for_platform (PLATFORM_CONFIGS st) ascii_word first_seen example_generator
     example_video (str ''twitter'') =
   \<lparr>c_text = Some (generate_fallback 3 (max_twitter_length st)),
    c_hashtags = extract_hashtags ascii_word first_seen
      (generate_fallback 3 (max_twitter_length st)) [] 10,
    c_media = Image (Some (str ''t.jpg''))
      (str ''Video too large/long for platform, using thumbnail''),
    c_original_id = Some (str ''abc''), c_platform = Some (str ''twitter'')\<rparr>"
  by (simp add: transform_for_platform_def PLATFORM_CONFIGS_def example_video_def
      example_generator_def generate_text_def prepare_media_for_platform_def Let_def)

text \<open>
  Where the limit is at least 35, the length of the longest fallback template, the
  transformation of a post either fails, giving the empty payload that the gate rejects,
  or gives a payload within both limits of the profile.
\<close>

lemma transformed_post_within_bounds:
  assumes "map_of configs platform = Some cfg"
    and "35 \<le> max_length cfg" and "0 \<le> hashtag_limit cfg"
  shows "transform_for_platform configs w list_set tg vd platform = empty_content \<and>
           \<not> validate_content (transform_for_platform configs w list_set tg vd platform) \<or>
         (\<exists>t. c_text (transform_for_platform configs w list_set tg vd platform) = Some t \<and>
            int (length t) \<le> max_length cfg) \<and>
         int (length (c_hashtags (transform_for_platform configs w list_set tg vd platform)))
           \<le> hashtag_limit cfg"
proof (cases "v_caption vd = None \<or> v_id vd = None")
  case True
  then have "transform_for_platform configs w list_set tg vd platform = empty_content"
    using assms(1) by (auto simp: transform_for_platform_def Let_def split: option.splits)
  then show ?thesis by (simp add: validate_content_def empty_content_def)
next
  case False
  then obtain caption i where "v_caption vd = Some caption" and "v_id vd = Some i" by auto
  then have t: "c_text (transform_for_platform configs w list_set tg vd platform) =
      Some (generate_text tg (max_length cfg) (str ''openai''))"
    and h: "c_hashtags (transform_for_platform configs w list_set tg vd platform) =
      py_prefix (hashtag_limit cfg)
        (all_hashtags w list_set (generate_text tg (max_length cfg) (str ''openai''))
           (v_hashtags vd))"
    using assms(1) by (simp_all add: transform_for_platform_def Let_def extract_hashtags_def)
  have "int (length (generate_text tg (max_length cfg) (str ''openai''))) \<le> max_length cfg"
    using assms(2) by (rule generate_text_le)
  moreover have "int (length (c_hashtags (transform_for_platform configs w list_set tg vd platform)))
      \<le> hashtag_limit cfg"
    unfolding h using assms(3) by (rule py_prefix_length)
  ultimately show ?thesis using t by blast
qed

text \<open>
  C1. The text of a model reply is cut to the limit, but the fallback path returns its
  template without comparing it with the limit. With the Twitter limit set to 20 and no
  API key, \<open>generate_text\<close> returns a template of 23 characters; the transformed post
  carries it, and the gate, which compares with the constant 280, accepts the post: a
  payload above the profile's text limit is returned.
\<close>

theorem fallback_text_exceeds_limit:
  "map_of (PLATFORM_CONFIGS \<lparr>max_twitter_length = 20, max_linkedin_length = 3000\<rparr>)
     (str ''twitter'') =
     Some \<lparr>max_length = 20, hashtag_limit = 10, video_max_duration = 140,
           video_max_size = 512 * 1024 * 1024\<rparr> \<and>
   generate_text example_generator 20 (str ''openai'') =
     str ''You have to see this! '' @ [128064] \<and>
   c_text (transform_for_platform
      (PLATFORM_CONFIGS \<lparr>max_twitter_length = 20, max_linkedin_length = 3000\<rparr>)
      ascii_word first_seen example_generator example_video (str ''twitter'')) =
     Some (str ''You have to see this! '' @ [128064]) \<and>
   validate_content (transform_for_platform
      (PLATFORM_CONFIGS \<lparr>max_twitter_length = 20, max_linkedin_length = 3000\<rparr>)
      ascii_word first_seen example_generator example_video (str ''twitter'')) \<and>
   length (str ''You have to see this! '' @ [128064]) = 23"
  unfolding example_transform
  by (simp add: validate_content_def generate_fallback_def templates_def
      PLATFORM_CONFIGS_def generate_text_def example_generator_def)

section \<open>Determinism\<close>

lemma transform_media_independent:
  "c_media (transform_for_platform configs w o1 tg1 vd platform) =
   c_media (transform_for_platform configs w o2 tg2 vd platform)"
  by (simp add: transform_for_platform_def empty_content_def Let_def split: option.splits)

lemma generate_text_reply:
  assumes "openai_available tg" and "openai_reply tg = Inr raw"
  shows "generate_text (tg\<lparr>draw := r\<rparr>) m (str ''openai'') = within_limit m (py_strip raw)"
  using assms by (simp add: generate_text_def generate_with_openai_def)

lemma transform_text_reply:
  assumes "openai_available tg" and "openai_reply tg = Inr raw"
  shows "c_text (transform_for_platform configs w o1 (tg\<lparr>draw := r1\<rparr>) vd platform) =
         c_text (transform_for_platform configs w o2 (tg\<lparr>draw := r2\<rparr>) vd platform)"
  using generate_text_reply [OF assms]
  by (simp add: transform_for_platform_def empty_content_def Let_def split: option.splits)

lemma extract_length_order:
  assumes "set_order o1" and "set_order o2"
  shows "length (extract_hashtags w o1 t original limit) =
         length (extract_hashtags w o2 t original limit)"
  unfolding extract_hashtags_def
  using all_hashtags_length [OF assms(1), of w t original]
    all_hashtags_length [OF assms(2), of w t original]
  by (simp add: py_prefix_length_eq)

lemma extract_set_order:
  assumes "set_order o1" and "set_order o2" and "int (card (combined w t original)) \<le> limit"
  shows "set (extract_hashtags w o1 t original limit) =
         set (extract_hashtags w o2 t original limit)"
  unfolding extract_hashtags_def
  using all_hashtags_length [OF assms(1), of w t original]
    all_hashtags_length [OF assms(2), of w t original]
    all_hashtags_set [OF assms(1), of w t original]
    all_hashtags_set [OF assms(2), of w t original] assms(3)
  by (simp add: py_prefix_all)

text \<open>
  C7 (amended). The transformation of a post is determined by its inputs together with
  the index that \<open>random.choice\<close> draws and the iteration order of the hashtag set, and
  by nothing else. The media reference depends on the post and the profile alone. When
  the API replies, the text does not depend on the draw; the fallback text depends on the
  draw only through the template it selects. Under any two iteration orders the hashtag
  lists have the same length, and the same entries when the limit is at least the number
  of candidates.
\<close>

theorem adapt_determined_by_draw_and_order:
  assumes "set_order o1" and "set_order o2"
  shows "c_media (transform_for_platform configs w o1 tg1 vd platform) =
           c_media (transform_for_platform configs w o2 tg2 vd platform) \<and>
         (openai_available tg \<and> openai_reply tg = Inr raw \<longrightarrow>
            c_text (transform_for_platform configs w o1 (tg\<lparr>draw := r1\<rparr>) vd platform) =
            c_text (transform_for_platform configs w o2 (tg\<lparr>draw := r2\<rparr>) vd platform)) \<and>
         (r1 mod 5 = r2 mod 5 \<longrightarrow> generate_fallback r1 m = generate_fallback r2 m) \<and>
         length (extract_hashtags w o1 t original limit) =
           length (extract_hashtags w o2 t original limit) \<and>
         (int (card (combined w t original)) \<le> limit \<longrightarrow>
            set (extract_hashtags w o1 t original limit) =
            set (extract_hashtags w o2 t original limit))"
proof (intro conjI impI)
  show "c_media (transform_for_platform configs w o1 tg1 vd platform) =
           c_media (transform_for_platform configs w o2 tg2 vd platform)"
    by (rule transform_media_independent)
  show "c_text (transform_for_platform configs w o1 (tg\<lparr>draw := r1\<rparr>) vd platform) =
            c_text (transform_for_platform configs w o2 (tg\<lparr>draw := r2\<rparr>) vd platform)"
    if "openai_available tg \<and> openai_reply tg = Inr raw"
    using that transform_text_reply by blast
  show "generate_fallback r1 m = generate_fallback r2 m" if "r1 mod 5 = r2 mod 5"
    using that by (simp add: generate_fallback_def templates_def)
  show "length (extract_hashtags w o1 t original limit) =
           length (extract_hashtags w o2 t original limit)"
    using assms by (rule extract_length_order)
  show "set (extract_hashtags w o1 t original limit) =
            set (extract_hashtags w o2 t original limit)"
    if "int (card (combined w t original)) \<le> limit"
    using assms that by (rule extract_set_order)
qed

theorem adapt_determined_witness:
  "set_order first_seen \<and> set_order remdups \<and>
   length (extract_hashtags ascii_word first_seen (str ''#a #b #a'') [] 10) =
     length (extract_hashtags ascii_word remdups (str ''#a #b #a'') [] 10) \<and>
   generate_fallback 1 280 = generate_fallback 6 280 \<and>
   c_media (transform_for_platform (PLATFORM_CONFIGS default_settings) ascii_word first_seen
      example_generator example_video (str ''twitter'')) =
   c_media (transform_for_platform (PLATFORM_CONFIGS default_settings) ascii_word remdups
      (example_generator\<lparr>draw := 0\<rparr>) example_video (str ''twitter''))"
  using adapt_determined_by_draw_and_order [OF set_order_first_seen set_order_remdups,
      of "PLATFORM_CONFIGS default_settings" ascii_word example_generator example_video
        "str ''twitter''" "example_generator\<lparr>draw := 0\<rparr>" _ _ 1 6 280 "str ''#a #b #a''" "[]" 10]
    set_order_first_seen set_order_remdups
  by simp

text \<open>
  The claim as stated fails: with the same post, profile and generator, the draws 0 and 1
  give different fallback texts, and two iteration orders of the set give the hashtags of
  \<open>#a #b #a\<close> in different orders.
\<close>

theorem adapt_not_deterministic_counterexample:
  "generate_text (example_generator\<lparr>draw := 0\<rparr>) 280 (str ''openai'') \<noteq>
   generate_text (example_generator\<lparr>draw := 1\<rparr>) 280 (str ''openai'') \<and>
   c_text (transform_for_platform (PLATFORM_CONFIGS default_settings) ascii_word first_seen
      (example_generator\<lparr>draw := 0\<rparr>) example_video (str ''twitter'')) \<noteq>
   c_text (transform_for_platform (PLATFORM_CONFIGS default_settings) ascii_word first_seen
      (example_generator\<lparr>draw := 1\<rparr>) example_video (str ''twitter'')) \<and>
   extract_hashtags ascii_word first_seen (str ''#a #b #a'') [] 10 \<noteq>
   extract_hashtags ascii_word remdups (str ''#a #b #a'') [] 10"
  by (simp add: transform_for_platform_def PLATFORM_CONFIGS_def example_video_def
      example_generator_def generate_text_def Let_def default_settings_def
      generate_fallback_def templates_def extract_eval first_seen_def ascii_word_def)

section \<open>The rule-based transforms\<close>

lemma ten_thousand_below_limit: "(10000::int) \<le> 10 ^ int_max_str_digits"
proof -
  have "(10::int) ^ 4 \<le> 10 ^ int_max_str_digits"
    by (rule power_increasing) (simp_all add: int_max_str_digits_def)
  then show ?thesis by simp
qed

lemma format_commas_below:
  assumes "\<bar>n\<bar> < 10 ^ int_max_str_digits"
  shows "format_commas n =
           Inr (if n < 0 then 45 # group_digits (nat (- n)) else group_digits (nat n))"
  using assms by (simp add: format_commas_def)

lemma format_commas_above:
  assumes "10 ^ int_max_str_digits \<le> \<bar>n\<bar>"
  shows "format_commas n = Inl ValueError"
  using assms by (simp add: format_commas_def)

lemma rule_based_text_returns:
  assumes "likes < 10 ^ int_max_str_digits"
  shows "\<exists>t. rule_based_text caption likes hashtags = Inr t \<and> t \<noteq> []"
proof (cases "1000 < likes")
  case True
  with assms have "\<bar>likes\<bar> < 10 ^ int_max_str_digits" by simp
  then have "format_commas likes = Inr (group_digits (nat likes))"
    using True by (simp add: format_commas_below)
  with True show ?thesis by (simp add: rule_based_text_def Let_def)
next
  case False
  then show ?thesis by (simp add: rule_based_text_def Let_def)
qed

lemma rule_based_text_raises:
  assumes "10 ^ int_max_str_digits \<le> likes"
  shows "rule_based_text caption likes hashtags = Inl ValueError"
proof -
  from assms ten_thousand_below_limit have l: "1000 < likes" by simp
  from assms have "10 ^ int_max_str_digits \<le> \<bar>likes\<bar>" by simp
  then have "format_commas likes = Inl ValueError" by (rule format_commas_above)
  with l show ?thesis by (simp add: rule_based_text_def Let_def)
qed

lemma rule_based_transform_returns:
  assumes "likes < 10 ^ int_max_str_digits"
  shows "\<exists>t. rule_based_transform caption likes comments hashtags = Inr t \<and> t \<noteq> []"
proof -
  from rule_based_text_returns [OF assms] obtain t
    where t: "rule_based_text caption likes hashtags = Inr t" and n: "t \<noteq> []" by blast
  have "(if 280 < length t then take 277 t @ str ''...'' else t) \<noteq> []"
    using n by (simp only: cut_nonempty) simp
  with t show ?thesis by (simp add: rule_based_transform_def)
qed

lemma rule_based_transform_raises:
  assumes "10 ^ int_max_str_digits \<le> likes"
  shows "rule_based_transform caption likes comments hashtags = Inl ValueError"
  using rule_based_text_raises [OF assms] by (simp add: rule_based_transform_def)

lemma optimize_for_twitter_returns:
  "\<exists>t. optimize_for_twitter caption likes comments hashtags = Inr t \<and>
       (t = [] \<longleftrightarrow> (\<forall>c\<in>set (takeWhile (\<lambda>c. c \<noteq> 46) caption). py_isspace c))"
proof -
  have "(35::nat) = Suc 34" by simp
  then have "(if 250 < length (py_join [32] (take 35 (py_words (takeWhile (\<lambda>c. c \<noteq> 46) caption))))
       then take 247 (py_join [32] (take 35 (py_words (takeWhile (\<lambda>c. c \<noteq> 46) caption)))) @ str ''...''
       else py_join [32] (take 35 (py_words (takeWhile (\<lambda>c. c \<noteq> 46) caption)))) = [] \<longleftrightarrow>
     (\<forall>c\<in>set (takeWhile (\<lambda>c. c \<noteq> 46) caption). py_isspace c)"
    by (simp only: cut_nonempty joined_words_Nil)
  then show ?thesis
    unfolding optimize_for_twitter_def Let_def first_sentence by blast
qed

lemma format_5000: "format_commas 5000 = Inr (str ''5,000'')"
proof -
  have "\<bar>5000::int\<bar> < 10 ^ int_max_str_digits"
    using ten_thousand_below_limit by simp
  then show ?thesis
    by (simp add: format_commas_below digits_upto3_def digits3_def)
qed

lemma rule_based_5000:
  "rule_based_transform (str ''Hello world. Bye'') 5000 3 [] =
     Inr (str ''Hello world '' @ [128293] @ str '' (5,000 likes!) #AI #Innovation'')"
  by (simp add: rule_based_transform_def rule_based_text_def Let_def py_split_def
      py_words_def py_isspace_def format_5000)

text \<open>
  C6 (amended). With the interpreter's default limit of 4300 digits for the decimal text of
  an integer, \<open>rule_based_transform\<close> raises exactly when \<open>likes\<close> is at least
  \<open>10 ^ 4300\<close>, in its number format; for every smaller \<open>likes\<close> and every caption, empty
  or not, it returns a non-empty string. \<open>optimize_for_twitter\<close> never raises; the string
  it returns is non-empty exactly when the first sentence of the caption, the part before
  the first full stop, has a character that is not whitespace.
\<close>

theorem fallback_transform_total:
  "(likes < 10 ^ int_max_str_digits \<longrightarrow>
      (\<exists>t. rule_based_transform caption likes comments hashtags = Inr t \<and> t \<noteq> [])) \<and>
   (10 ^ int_max_str_digits \<le> likes \<longrightarrow>
      rule_based_transform caption likes comments hashtags = Inl ValueError) \<and>
   (\<exists>t. optimize_for_twitter caption likes comments hashtags = Inr t \<and>
      (t \<noteq> [] \<longleftrightarrow> (\<exists>c\<in>set (takeWhile (\<lambda>c. c \<noteq> 46) caption). \<not> py_isspace c)))"
proof (intro conjI impI)
  show "\<exists>t. rule_based_transform caption likes comments hashtags = Inr t \<and> t \<noteq> []"
    if "likes < 10 ^ int_max_str_digits"
    using that by (rule rule_based_transform_returns)
  show "rule_based_transform caption likes comments hashtags = Inl ValueError"
    if "10 ^ int_max_str_digits \<le> likes"
    using that by (rule rule_based_transform_raises)
  show "\<exists>t. optimize_for_twitter caption likes comments hashtags = Inr t \<and>
      (t \<noteq> [] \<longleftrightarrow> (\<exists>c\<in>set (takeWhile (\<lambda>c. c \<noteq> 46) caption). \<not> py_isspace c))"
    using optimize_for_twitter_returns [of caption likes comments hashtags] by blast
qed

theorem fallback_transform_total_witness:
  "(5000::int) < 10 ^ int_max_str_digits \<and>
   (\<exists>t. rule_based_transform (str ''Hello world. Bye'') 5000 3 [] = Inr t \<and> t \<noteq> []) \<and>
   rule_based_transform (str ''Hello world. Bye'') 5000 3 [] =
     Inr (str ''Hello world '' @ [128293] @ str '' (5,000 likes!) #AI #Innovation'') \<and>
   rule_based_transform (str ''Hello world. Bye'') (10 ^ int_max_str_digits) 3 [] =
     Inl ValueError"
proof -
  have s: "(5000::int) < 10 ^ int_max_str_digits"
    using ten_thousand_below_limit by simp
  note h = fallback_transform_total [of 5000 "str ''Hello world. Bye''" 3 "[]"]
  note k = fallback_transform_total [of "10 ^ int_max_str_digits" "str ''Hello world. Bye''" 3 "[]"]
  from h s have "\<exists>t. rule_based_transform (str ''Hello world. Bye'') 5000 3 [] = Inr t \<and> t \<noteq> []"
    by blast
  moreover from k have
    "rule_based_transform (str ''Hello world. Bye'') (10 ^ int_max_str_digits) 3 [] = Inl ValueError"
    by blast
  ultimately show ?thesis using s rule_based_5000 by blast
qed

text \<open>
  The claim as stated fails twice. The caption \<open>.\<close> is not empty and
  \<open>optimize_for_twitter\<close> returns the empty string for it. And \<open>rule_based_transform\<close>
  raises \<open>ValueError\<close> when \<open>likes\<close> is \<open>10 ^ 4300\<close>.
\<close>

theorem fallback_transform_counterexample:
  "str ''.'' \<noteq> [] \<and> optimize_for_twitter (str ''.'') 0 0 [] = Inr [] \<and>
   int_max_str_digits = 4300 \<and>
   rule_based_transform (str ''hi'') (10 ^ int_max_str_digits) 0 [] = Inl ValueError"
proof (intro conjI)
  show "str ''.'' \<noteq> []" by simp
  show "optimize_for_twitter (str ''.'') 0 0 [] = Inr []"
    by (simp add: optimize_for_twitter_def py_split_def py_words_def)
  show "int_max_str_digits = 4300" by (rule int_max_str_digits_def)
  show "rule_based_transform (str ''hi'') (10 ^ int_max_str_digits) 0 [] = Inl ValueError"
    by (rule rule_based_transform_raises) (rule order_refl)
qed

section \<open>Batch posting\<close>

lemma posting_loop_length:
  "length (fst (posting_loop post_tweet results s content_list)) =
     length results + length content_list"
  by (induction content_list arbitrary: results s) (auto split: prod.splits)

lemma posting_loop_prefix:
  "take (length results) (fst (posting_loop post_tweet results s content_list)) = results"
proof (induction content_list arbitrary: results s)
  case Nil
  then show ?case by simp
next
  case (Cons cd rest)
  obtain r s' where p: "post_content post_tweet s cd = (r, s')" by (cases "post_content post_tweet s cd")
  have "take (length (results @ [r])) (fst (posting_loop post_tweet (results @ [r]) s' rest))
      = results @ [r]" by (rule Cons.IH)
  then have "take (length results) (take (length (results @ [r]))
      (fst (posting_loop post_tweet (results @ [r]) s' rest))) = take (length results) (results @ [r])"
    by simp
  then show ?case using p by (simp add: min_def)
qed

lemma posting_loop_nth:
  "i < length content_list \<Longrightarrow>
     \<exists>s'. fst (posting_loop post_tweet results s content_list) ! (length results + i) =
       fst (post_content post_tweet s' (content_list ! i))"
proof (induction content_list arbitrary: results s i)
  case Nil
  then show ?case by simp
next
  case (Cons cd rest)
  obtain r s' where p: "post_content post_tweet s cd = (r, s')" by (cases "post_content post_tweet s cd")
  show ?case
  proof (cases i)
    case 0
    have "take (length (results @ [r])) (fst (posting_loop post_tweet (results @ [r]) s' rest))
      = results @ [r]" by (rule posting_loop_prefix)
    then have "take (length (results @ [r])) (fst (posting_loop post_tweet (results @ [r]) s' rest))
       ! length results = r" by simp
    then have "fst (posting_loop post_tweet (results @ [r]) s' rest) ! length results = r"
      by simp
    with p 0 show ?thesis by (auto intro: exI [of _ s])
  next
    case (Suc j)
    with Cons.prems have "j < length rest" by simp
    from Cons.IH [OF this, of "results @ [r]" s'] p Suc show ?thesis by simp
  qed
qed

lemma post_content_raises:
  assumes "validate_content cd" and "prepare_tweet_data cd = Inr tweet"
    and "post_tweet s tweet = (Inl e, s')"
  shows "post_content post_tweet s cd = (NotPosted (Some e), s')"
  using assms by (simp add: post_content_def)

lemma post_content_succeeds:
  assumes "validate_content cd" and "prepare_tweet_data cd = Inr tweet"
    and "post_tweet s tweet = (Inr reply, s')" and "r_success reply"
  shows "post_content post_tweet s cd =
           (Posted (r_tweet_id reply) (r_tweet_url reply) (c_original_id cd), s')"
  using assms by (simp add: post_content_def)

lemma posting_loop_acc:
  "posting_loop post_tweet results s content_list =
     (case posting_loop post_tweet [] s content_list of (rs, s') \<Rightarrow> (results @ rs, s'))"
proof (induction content_list arbitrary: results s)
  case Nil
  then show ?case by simp
next
  case (Cons cd rest)
  obtain r s' where p: "post_content post_tweet s cd = (r, s')"
    by (cases "post_content post_tweet s cd")
  obtain rs s'' where q: "posting_loop post_tweet [] s' rest = (rs, s'')"
    by (cases "posting_loop post_tweet [] s' rest")
  have "posting_loop post_tweet (results @ [r]) s' rest = ((results @ [r]) @ rs, s'')"
    using Cons.IH [of "results @ [r]" s'] q by simp
  moreover have "posting_loop post_tweet [r] s' rest = ([r] @ rs, s'')"
    using Cons.IH [of "[r]" s'] q by simp
  ultimately show ?case using p by simp
qed

lemma execute_posting_Cons:
  "execute_posting post_tweet s (cd # rest) =
     (case post_content post_tweet s cd of
        (result, s') \<Rightarrow>
          (case execute_posting post_tweet s' rest of
             (results, s'') \<Rightarrow> (result # results, s'')))"
proof -
  obtain r s' where p: "post_content post_tweet s cd = (r, s')"
    by (cases "post_content post_tweet s cd")
  have "posting_loop post_tweet [r] s' rest =
      (case posting_loop post_tweet [] s' rest of (rs, s'') \<Rightarrow> ([r] @ rs, s''))"
    by (rule posting_loop_acc)
  with p show ?thesis by (simp add: execute_posting_def)
qed

lemma post_content_rejected:
  assumes "\<not> validate_content cd"
  shows "post_content post_tweet s cd =
           (NotPosted (Some (str ''Content validation failed'')), s)"
  using assms by (simp add: post_content_def)

lemma post_content_refused:
  assumes "validate_content cd" and "prepare_tweet_data cd = Inr tweet"
    and "post_tweet s tweet = (Inr reply, s')" and "\<not> r_success reply"
  shows "post_content post_tweet s cd = (NotPosted (r_error reply), s')"
  using assms by (simp add: post_content_def)

lemma valid_prepares:
  assumes "validate_content cd"
  shows "\<exists>tweet. prepare_tweet_data cd = Inr tweet"
  using assms by (auto simp: validate_content_def prepare_tweet_data_def split: option.splits)

lemma example_payload_valid: "validate_content example_payload"
  by (simp add: validate_content_def example_payload_def)

lemma example_payload_tweet:
  "prepare_tweet_data example_payload =
     Inr \<lparr>t_text = str ''hi'', t_hashtags = [], t_media = None,
          t_original_id = Some (str ''abc'')\<rparr>"
  by (simp add: prepare_tweet_data_def example_payload_def)

text \<open>
  C8. Posting a batch to Twitter returns one result for every post of the batch, whatever
  the publisher does: the first result is what \<open>post_content\<close> returns for the first
  post, and the rest of the batch is posted in the state that call left. A post that the
  gate rejects is recorded as failed without a call of the publisher; an exception of the
  publisher is recorded as a failure that carries its message; a reply without success
  is recorded as a failure that carries the reply's error; a reply with success is
  recorded as posted. In no case does the loop stop. For three valid posts where the
  publisher accepts the first, raises on the second and accepts the third, the results
  are success, failure, success: two successes, and the third post is published.
\<close>

theorem batch_continues_after_failure:
  "execute_posting post_tweet s [] = ([], s) \<and>
   execute_posting post_tweet s (cd # rest) =
     (case post_content post_tweet s cd of
        (result, s') \<Rightarrow>
          (case execute_posting post_tweet s' rest of
             (results, s'') \<Rightarrow> (result # results, s''))) \<and>
   length (fst (execute_posting post_tweet s content_list)) = length content_list \<and>
   (\<forall>i<length content_list. \<exists>s'.
      fst (execute_posting post_tweet s content_list) ! i =
        fst (post_content post_tweet s' (content_list ! i))) \<and>
   (\<not> validate_content cd \<longrightarrow>
      post_content post_tweet s cd =
        (NotPosted (Some (str ''Content validation failed'')), s)) \<and>
   (validate_content cd \<longrightarrow> (\<exists>tweet. prepare_tweet_data cd = Inr tweet)) \<and>
   (validate_content cd \<and> prepare_tweet_data cd = Inr tweet \<and>
    post_tweet s tweet = (Inl e, s') \<longrightarrow>
      post_content post_tweet s cd = (NotPosted (Some e), s')) \<and>
   (validate_content cd \<and> prepare_tweet_data cd = Inr tweet \<and>
    post_tweet s tweet = (Inr reply, s') \<and> \<not> r_success reply \<longrightarrow>
      post_content post_tweet s cd = (NotPosted (r_error reply), s')) \<and>
   (validate_content cd \<and> prepare_tweet_data cd = Inr tweet \<and>
    post_tweet s tweet = (Inr reply, s') \<and> r_success reply \<longrightarrow>
      post_content post_tweet s cd =
        (Posted (r_tweet_id reply) (r_tweet_url reply) (c_original_id cd), s')) \<and>
   (validate_content c1 \<and> prepare_tweet_data c1 = Inr t1 \<and>
    validate_content c2 \<and> prepare_tweet_data c2 = Inr t2 \<and>
    validate_content c3 \<and> prepare_tweet_data c3 = Inr t3 \<and>
    post_tweet s t1 = (Inr reply1, s1) \<and> r_success reply1 \<and>
    post_tweet s1 t2 = (Inl e2, s2) \<and>
    post_tweet s2 t3 = (Inr reply3, s3) \<and> r_success reply3 \<longrightarrow>
    fst (execute_posting post_tweet s [c1, c2, c3]) =
      [Posted (r_tweet_id reply1) (r_tweet_url reply1) (c_original_id c1),
       NotPosted (Some e2),
       Posted (r_tweet_id reply3) (r_tweet_url reply3) (c_original_id c3)] \<and>
    length (filter success (fst (execute_posting post_tweet s [c1, c2, c3]))) = 2)"
proof (intro conjI allI impI)
  show "execute_posting post_tweet s [] = ([], s)"
    by (simp add: execute_posting_def)
  show "execute_posting post_tweet s (cd # rest) =
     (case post_content post_tweet s cd of
        (result, s') \<Rightarrow>
          (case execute_posting post_tweet s' rest of
             (results, s'') \<Rightarrow> (result # results, s'')))"
    by (rule execute_posting_Cons)
  show "length (fst (execute_posting post_tweet s content_list)) = length content_list"
    by (simp add: execute_posting_def posting_loop_length)
  show "post_content post_tweet s cd =
        (NotPosted (Some (str ''Content validation failed'')), s)"
    if "\<not> validate_content cd"
    using that by (rule post_content_rejected)
  show "\<exists>tweet. prepare_tweet_data cd = Inr tweet" if "validate_content cd"
    using that by (rule valid_prepares)
  show "post_content post_tweet s cd = (NotPosted (Some e), s')"
    if "validate_content cd \<and> prepare_tweet_data cd = Inr tweet \<and>
        post_tweet s tweet = (Inl e, s')"
    using that post_content_raises [of cd tweet post_tweet s e s'] by blast
  show "post_content post_tweet s cd = (NotPosted (r_error reply), s')"
    if "validate_content cd \<and> prepare_tweet_data cd = Inr tweet \<and>
        post_tweet s tweet = (Inr reply, s') \<and> \<not> r_success reply"
    using that post_content_refused [of cd tweet post_tweet s reply s'] by blast
  show "post_content post_tweet s cd =
        (Posted (r_tweet_id reply) (r_tweet_url reply) (c_original_id cd), s')"
    if "validate_content cd \<and> prepare_tweet_data cd = Inr tweet \<and>
        post_tweet s tweet = (Inr reply, s') \<and> r_success reply"
    using that post_content_succeeds [of cd tweet post_tweet s reply s'] by blast
next
  fix i assume "i < length content_list"
  from posting_loop_nth [OF this, of post_tweet "[]" s]
  show "\<exists>s'. fst (execute_posting post_tweet s content_list) ! i =
        fst (post_content post_tweet s' (content_list ! i))"
    by (simp add: execute_posting_def)
next
  assume a: "validate_content c1 \<and> prepare_tweet_data c1 = Inr t1 \<and>
    validate_content c2 \<and> prepare_tweet_data c2 = Inr t2 \<and>
    validate_content c3 \<and> prepare_tweet_data c3 = Inr t3 \<and>
    post_tweet s t1 = (Inr reply1, s1) \<and> r_success reply1 \<and>
    post_tweet s1 t2 = (Inl e2, s2) \<and>
    post_tweet s2 t3 = (Inr reply3, s3) \<and> r_success reply3"
  have 1: "post_content post_tweet s c1 =
      (Posted (r_tweet_id reply1) (r_tweet_url reply1) (c_original_id c1), s1)"
    using a post_content_succeeds [of c1 t1 post_tweet s reply1 s1] by blast
  have 2: "post_content post_tweet s1 c2 = (NotPosted (Some e2), s2)"
    using a post_content_raises [of c2 t2 post_tweet s1 e2 s2] by blast
  have 3: "post_content post_tweet s2 c3 =
      (Posted (r_tweet_id reply3) (r_tweet_url reply3) (c_original_id c3), s3)"
    using a post_content_succeeds [of c3 t3 post_tweet s2 reply3 s3] by blast
  show r: "fst (execute_posting post_tweet s [c1, c2, c3]) =
      [Posted (r_tweet_id reply1) (r_tweet_url reply1) (c_original_id c1),
       NotPosted (Some e2),
       Posted (r_tweet_id reply3) (r_tweet_url reply3) (c_original_id c3)]"
    by (simp add: execute_posting_def 1 2 3)
  show "length (filter success (fst (execute_posting post_tweet s [c1, c2, c3]))) = 2"
    unfolding r by simp
qed

theorem batch_continues_after_failure_witness:
  "fst (execute_posting flaky_poster 0 [example_payload, example_payload, example_payload]) =
     [Posted (Some (str ''1'')) None (Some (str ''abc'')),
      NotPosted (Some (str ''timeout'')),
      Posted (Some (str ''1'')) None (Some (str ''abc''))] \<and>
   length (filter success
     (fst (execute_posting flaky_poster 0 [example_payload, example_payload, example_payload])))
     = 2 \<and>
   post_content refusing_poster 0 example_payload =
     (NotPosted (Some (str ''Failed to create tweet'')), 1) \<and>
   post_content flaky_poster 0 empty_content =
     (NotPosted (Some (str ''Content validation failed'')), 0)"
proof -
  let ?tweet = "\<lparr>t_text = str ''hi'', t_hashtags = [], t_media = None,
          t_original_id = Some (str ''abc'')\<rparr>"
  note h = batch_continues_after_failure [of flaky_poster 0 example_payload "[]" "[]" ?tweet
      "str ''timeout''" 1 example_reply example_payload ?tweet example_payload ?tweet
      example_payload ?tweet example_reply 1 "str ''timeout''" 2 example_reply 3]
  have a: "fst (execute_posting flaky_poster 0 [example_payload, example_payload, example_payload]) =
      [Posted (r_tweet_id example_reply) (r_tweet_url example_reply) (c_original_id example_payload),
       NotPosted (Some (str ''timeout'')),
       Posted (r_tweet_id example_reply) (r_tweet_url example_reply) (c_original_id example_payload)] \<and>
    length (filter success
      (fst (execute_posting flaky_poster 0 [example_payload, example_payload, example_payload]))) = 2"
    using h by (simp add: example_payload_valid example_payload_tweet flaky_poster_def
        example_reply_def)
  note k = batch_continues_after_failure [of refusing_poster 0 example_payload "[]" "[]" ?tweet
      "[]" 1 refusing_reply]
  have b: "post_content refusing_poster 0 example_payload =
      (NotPosted (r_error refusing_reply), 1)"
    using k by (simp add: example_payload_valid example_payload_tweet refusing_poster_def
        refusing_reply_def)
  note m = batch_continues_after_failure [of flaky_poster 0 empty_content "[]" "[]"]
  have c: "post_content flaky_poster 0 empty_content =
      (NotPosted (Some (str ''Content validation failed'')), 0)"
    using m by (simp add: validate_content_def empty_content_def)
  from a b c show ?thesis
    by (simp add: example_reply_def example_payload_def refusing_reply_def)
qed

section \<open>The workflow summary\<close>

























end
